theory Spec2Isabelle
  imports Main "HOL-Library.Word"
begin

unbundle bit_operations_syntax

section \<open>Data model\<close>

text \<open>
  A Python \<open>bytes\<close> object is a list of 8-bit words; a Python \<open>int\<close> is an \<open>int\<close>.
  The exceptions that the modelled code can raise are values of \<open>error\<close>; a function
  that can raise returns \<open>error + 'a\<close>, with \<open>Inl\<close> for the exception.
\<close>

type_synonym byte = "8 word"
type_synonym bytes = "byte list"

datatype error = OverflowError | UnicodeDecodeError | ValueError | KeyError

text \<open>Python slicing \<open>xs[i:j]\<close> for non-negative bounds: it never raises, it truncates.\<close>

definition py_slice :: "nat \<Rightarrow> nat \<Rightarrow> 'a list \<Rightarrow> 'a list" where
  "py_slice i j xs = take (j - i) (drop i xs)"

subsection \<open>Constants of \<open>awg_server.py\<close>\<close>

definition AWG_ID_STRING :: bytes where
  "AWG_ID_STRING = map (of_nat \<circ> of_char) ''IDN-SGLT-PRI SDG0000X''"

definition GET_PORT :: int where "GET_PORT = 3"
definition CREATE_LINK :: int where "CREATE_LINK = 10"
definition DEVICE_WRITE :: int where "DEVICE_WRITE = 11"
definition DEVICE_READ :: int where "DEVICE_READ = 12"
definition DESTROY_LINK :: int where "DESTROY_LINK = 23"

definition LXI_PROCEDURES :: "int \<rightharpoonup> string" where
  "LXI_PROCEDURES = [10 \<mapsto> ''CREATE_LINK'', 11 \<mapsto> ''DEVICE_WRITE'',
     12 \<mapsto> ''DEVICE_READ'', 23 \<mapsto> ''DESTROY_LINK'']"

definition VXI11_CORE_ID :: int where "VXI11_CORE_ID = 395183"
definition NOT_VXI11_ERROR :: int where "NOT_VXI11_ERROR = - 1"
definition NOT_GET_PORT_ERROR :: int where "NOT_GET_PORT_ERROR = - 2"
definition UNKNOWN_COMMAND_ERROR :: int where "UNKNOWN_COMMAND_ERROR = - 4"
definition OK :: int where "OK = 0"

section \<open>\<open>CommsObject\<close>: helpers, RPC header, TCP framing\<close>

text \<open>\<open>int.from_bytes(bytes_seq, "big")\<close>: any length, the empty sequence gives 0.\<close>

definition bytes_to_uint :: "bytes \<Rightarrow> int" where
  "bytes_to_uint bytes_seq = foldl (\<lambda>num b. num * 256 + uint b) 0 bytes_seq"

text \<open>
  \<open>num.to_bytes(4, "big")\<close>: raises \<open>OverflowError\<close> for a negative number and for
  one that does not fit four bytes.
\<close>

definition uint_to_bytes :: "int \<Rightarrow> error + bytes" where
  "uint_to_bytes num =
     (if num < 0 \<or> 2 ^ 32 \<le> num then Inl OverflowError
      else Inr [word_of_int (num div 2 ^ 24), word_of_int (num div 2 ^ 16),
                word_of_int (num div 2 ^ 8), word_of_int num])"

definition get_xid :: "bytes \<Rightarrow> bytes" where
  "get_xid rx_packet = py_slice 0x00 0x04 rx_packet"

definition generate_packet_size_header :: "int \<Rightarrow> error + bytes" where
  "generate_packet_size_header sz = uint_to_bytes (sz OR 0x80000000)"

definition generate_rpc_header :: "bytes \<Rightarrow> bytes" where
  "generate_rpc_header xid =
     [] @ xid @ [0x00, 0x00, 0x00, 0x01] @ [0x00, 0x00, 0x00, 0x00]
        @ [0x00, 0x00, 0x00, 0x00] @ [0x00, 0x00, 0x00, 0x00] @ [0x00, 0x00, 0x00, 0x00]"

definition generate_resp_data :: "bytes \<Rightarrow> bytes \<Rightarrow> bool \<Rightarrow> error + bytes" where
  "generate_resp_data xid resp on_udp =
     (let rpc_hdr = generate_rpc_header xid in
      if on_udp then Inr (rpc_hdr @ resp)
      else
        (let data_size = int (length rpc_hdr) + int (length resp) in
         case generate_packet_size_header data_size of
           Inl e \<Rightarrow> Inl e
         | Inr size_hdr \<Rightarrow> Inr (size_hdr @ rpc_hdr @ resp)))"

section \<open>\<open>Portmapper\<close>\<close>

text \<open>
  The shared port cell is \<open>multiprocessing.Value('I', ...)\<close>: an unsigned 32-bit
  integer. The accepted TCP connection is modelled by what was handed to
  \<open>connection.send\<close> and by whether \<open>connection.close()\<close> was executed.
\<close>

type_synonym port_cell = "32 word"

record connection =
  sent :: "bytes list"
  closed :: bool

definition generate_rpcbind_response :: "port_cell \<Rightarrow> error + bytes" where
  "generate_rpcbind_response vxi11_port =
     (let myport = uint vxi11_port in uint_to_bytes myport)"

definition get_procedure :: "bytes \<Rightarrow> int" where
  "get_procedure rx_packet = bytes_to_uint (py_slice 0x14 0x18 rx_packet)"

definition get_program_id :: "bytes \<Rightarrow> int" where
  "get_program_id rx_packet = bytes_to_uint (py_slice 0x28 0x2C rx_packet)"

text \<open>
  \<open>process_rpcbind_request_tcp\<close>, from the bytes returned by \<open>connection.recv(128)\<close>.
  The result is the returned status (or the exception raised) and the state of the
  accepted connection when the function is left.
\<close>

definition process_rpcbind_request_tcp ::
  "port_cell \<Rightarrow> bytes \<Rightarrow> (error + int) \<times> connection" where
  "process_rpcbind_request_tcp vxi11_port rx =
     (let conn = \<lparr>sent = [], closed = False\<rparr> in
      if length rx > 4 then
        (let rx_data = drop 0x04 rx;
             procedure = get_procedure rx_data in
         if procedure \<noteq> GET_PORT then (Inr NOT_GET_PORT_ERROR, conn)
         else
           (let program_id = get_program_id rx_data in
            if program_id \<noteq> VXI11_CORE_ID then (Inr NOT_VXI11_ERROR, conn)
            else
              (case generate_rpcbind_response vxi11_port of
                 Inl e \<Rightarrow> (Inl e, conn)
               | Inr resp \<Rightarrow>
                   (let xid = get_xid rx_data in
                    case generate_resp_data xid resp False of
                      Inl e \<Rightarrow> (Inl e, conn)
                    | Inr resp_data \<Rightarrow>
                        (Inr OK, conn\<lparr>sent := sent conn @ [resp_data], closed := True\<rparr>)))))
      else (Inr OK, conn\<lparr>closed := True\<rparr>))"

text \<open>
  \<open>process_rpcbind_request_udp\<close>, from the datagram returned by \<open>recvfrom(1024)\<close>.
  The result is the returned status (or the exception raised) and the datagrams handed
  to \<open>sendto\<close>. There is no connection, and the function closes nothing.
\<close>

definition process_rpcbind_request_udp ::
  "port_cell \<Rightarrow> bytes \<Rightarrow> (error + int) \<times> bytes list" where
  "process_rpcbind_request_udp vxi11_port rx_data =
     (if length rx_data > 0 then
        (let procedure = get_procedure rx_data in
         if procedure \<noteq> GET_PORT then (Inr NOT_GET_PORT_ERROR, [])
         else
           (let program_id = get_program_id rx_data in
            if program_id \<noteq> VXI11_CORE_ID then (Inr NOT_VXI11_ERROR, [])
            else
              (case generate_rpcbind_response vxi11_port of
                 Inl e \<Rightarrow> (Inl e, [])
               | Inr resp \<Rightarrow>
                   (let xid = get_xid rx_data in
                    case generate_resp_data xid resp True of
                      Inl e \<Rightarrow> (Inl e, [])
                    | Inr resp_data \<Rightarrow> (Inr OK, [resp_data])))))
      else (Inr OK, []))"

section \<open>\<open>AwgServer\<close>: the VXI-11 service\<close>

subsection \<open>Text: \<open>decode('utf-8')\<close> and \<open>strip()\<close>\<close>

text \<open>
  A Python \<open>str\<close> is the list of its code points. \<open>bytes.decode('utf-8')\<close> is the
  strict decoder: it raises \<open>UnicodeDecodeError\<close> on a byte sequence that is not
  well-formed UTF-8 (a stray continuation byte, a truncated or overlong sequence, a
  surrogate, a code point above U+10FFFF).
\<close>

type_synonym str = "nat list"

definition is_cont :: "byte \<Rightarrow> bool" where
  "is_cont b \<longleftrightarrow> 0x80 \<le> b \<and> b \<le> 0xBF"

definition second_ok :: "byte \<Rightarrow> byte \<Rightarrow> bool" where
  "second_ok b0 b1 \<longleftrightarrow>
     (if b0 = 0xE0 then 0xA0 \<le> b1 \<and> b1 \<le> 0xBF
      else if b0 = 0xED then 0x80 \<le> b1 \<and> b1 \<le> 0x9F
      else if b0 = 0xF0 then 0x90 \<le> b1 \<and> b1 \<le> 0xBF
      else if b0 = 0xF4 then 0x80 \<le> b1 \<and> b1 \<le> 0x8F
      else is_cont b1)"

definition low6 :: "byte \<Rightarrow> nat" where
  "low6 b = unat b mod 64"

fun utf8_decode :: "bytes \<Rightarrow> error + str" where
  "utf8_decode [] = Inr []"
| "utf8_decode (b0 # bs) =
     (if b0 < 0x80 then
        (case utf8_decode bs of Inl e \<Rightarrow> Inl e | Inr cs \<Rightarrow> Inr (unat b0 # cs))
      else if 0xC2 \<le> b0 \<and> b0 \<le> 0xDF then
        (case bs of
           b1 # r \<Rightarrow>
             if is_cont b1 then
               (case utf8_decode r of
                  Inl e \<Rightarrow> Inl e
                | Inr cs \<Rightarrow> Inr ((unat b0 mod 32 * 64 + low6 b1) # cs))
             else Inl UnicodeDecodeError
         | _ \<Rightarrow> Inl UnicodeDecodeError)
      else if 0xE0 \<le> b0 \<and> b0 \<le> 0xEF then
        (case bs of
           b1 # b2 # r \<Rightarrow>
             if second_ok b0 b1 \<and> is_cont b2 then
               (case utf8_decode r of
                  Inl e \<Rightarrow> Inl e
                | Inr cs \<Rightarrow> Inr (((unat b0 mod 16 * 64 + low6 b1) * 64 + low6 b2) # cs))
             else Inl UnicodeDecodeError
         | _ \<Rightarrow> Inl UnicodeDecodeError)
      else if 0xF0 \<le> b0 \<and> b0 \<le> 0xF4 then
        (case bs of
           b1 # b2 # b3 # r \<Rightarrow>
             if second_ok b0 b1 \<and> is_cont b2 \<and> is_cont b3 then
               (case utf8_decode r of
                  Inl e \<Rightarrow> Inl e
                | Inr cs \<Rightarrow>
                    Inr ((((unat b0 mod 8 * 64 + low6 b1) * 64 + low6 b2) * 64 + low6 b3) # cs))
             else Inl UnicodeDecodeError
         | _ \<Rightarrow> Inl UnicodeDecodeError)
      else Inl UnicodeDecodeError)"

text \<open>\<open>str.strip()\<close> removes leading and trailing whitespace (\<open>str.isspace\<close>).\<close>

definition is_space :: "nat \<Rightarrow> bool" where
  "is_space c \<longleftrightarrow>
     (0x09 \<le> c \<and> c \<le> 0x0D) \<or> (0x1C \<le> c \<and> c \<le> 0x20) \<or> c = 0x85 \<or> c = 0xA0 \<or>
     c = 0x1680 \<or> (0x2000 \<le> c \<and> c \<le> 0x200A) \<or> c = 0x2028 \<or> c = 0x2029 \<or>
     c = 0x202F \<or> c = 0x205F \<or> c = 0x3000"

definition strip :: "str \<Rightarrow> str" where
  "strip s = rev (dropWhile is_space (rev (dropWhile is_space s)))"

subsection \<open>\<open>parse_lxi_request\<close>\<close>

text \<open>
  The function returns a Python tuple: three values on the first \<open>return\<close> (the
  program id is not VXI-11 Core), four values on the last one.
\<close>

datatype lxi_tuple =
  Tuple3 int "int option" "str option"
| Tuple4 int int "str option" int

definition parse_lxi_request :: "bytes \<Rightarrow> error + lxi_tuple" where
  "parse_lxi_request rx_data =
     (let program_id = bytes_to_uint (py_slice 0x10 0x14 rx_data) in
      if program_id \<noteq> VXI11_CORE_ID then Inr (Tuple3 NOT_VXI11_ERROR None None)
      else
        (let vxi11_procedure = bytes_to_uint (py_slice 0x18 0x1c rx_data);
             (status, scpi_command, cmd_length) =
               (if vxi11_procedure = CREATE_LINK then
                  (let cmd_length = bytes_to_uint (py_slice 0x38 0x3C rx_data) in
                   (OK, Some (py_slice 0x3C (0x3C + nat cmd_length) rx_data), cmd_length))
                else if vxi11_procedure = DEVICE_WRITE then
                  (let cmd_length = bytes_to_uint (py_slice 0x3C 0x40 rx_data) in
                   (OK, Some (py_slice 0x40 (0x40 + nat cmd_length) rx_data), cmd_length))
                else if vxi11_procedure = DEVICE_READ then (OK, None, 0)
                else if vxi11_procedure = DESTROY_LINK then (OK, None, 0)
                else (UNKNOWN_COMMAND_ERROR, None, 0))
         in case scpi_command of
              None \<Rightarrow> Inr (Tuple4 status vxi11_procedure None cmd_length)
            | Some raw \<Rightarrow>
                (case utf8_decode raw of
                   Inl e \<Rightarrow> Inl e
                 | Inr s \<Rightarrow> Inr (Tuple4 status vxi11_procedure (Some (strip s)) cmd_length))))"

subsection \<open>Response data generators\<close>

definition generate_lxi_create_link_response :: bytes where
  "generate_lxi_create_link_response =
     [0x00, 0x00, 0x00, 0x00] @ [0x00, 0x00, 0x00, 0x00] @ [0x00, 0x00, 0x00, 0x00]
       @ [0x00, 0x80, 0x00, 0x00]"

definition generate_lxi_destroy_link_response :: bytes where
  "generate_lxi_destroy_link_response = [0x00, 0x00, 0x00, 0x00]"

definition generate_lxi_device_write_response :: "int \<Rightarrow> error + bytes" where
  "generate_lxi_device_write_response cmd_length =
     (case uint_to_bytes cmd_length of
        Inl e \<Rightarrow> Inl e
      | Inr b \<Rightarrow> Inr ([0x00, 0x00, 0x00, 0x00] @ b))"

definition generate_lxi_idn_response :: "bytes \<Rightarrow> error + bytes" where
  "generate_lxi_idn_response id_string =
     (let id_length = int (length id_string) + 1 in
      case uint_to_bytes id_length of
        Inl e \<Rightarrow> Inl e
      | Inr b \<Rightarrow>
          Inr ([0x00, 0x00, 0x00, 0x00] @ [0x00, 0x00, 0x00, 0x04] @ b @ id_string
                 @ [0x0A, 0x00, 0x00]))"

subsection \<open>\<open>process_lxi_requests\<close>\<close>

text \<open>
  The SCPI command parser (\<open>command_parser.py\<close>) is not among the sources: it is the
  parameter \<open>parser\<close>, a function from the state of the generator and the command to
  the new state. It is total, as the spec describes it: unknown commands are ignored
  without error, and parser and driver errors are logged and do not break the session.

  One pass through the body of the \<open>while True\<close> loop, for a received buffer that is not
  empty, ends in one of four ways: an exception, a \<open>break\<close> with nothing sent, a reply
  sent and the loop continued, or a reply sent and then the \<open>break\<close> that follows
  DESTROY_LINK. Each carries the state of the generator. \<open>lxi_request\<close> is the body of
  the loop from \<open>parse_lxi_request\<close> to the choice of the response; \<open>lxi_respond\<close> is
  its end, from \<open>get_xid\<close> to \<open>connection.send\<close> and the last \<open>if\<close>.
\<close>

datatype 'a step =
  Raised 'a error
| Broke 'a
| Replied 'a bytes
| RepliedBroke 'a bytes

definition lxi_respond :: "'a \<Rightarrow> bytes \<Rightarrow> int \<Rightarrow> error + bytes \<Rightarrow> 'a step" where
  "lxi_respond a rx_buf vxi11_procedure resp_or_error =
     (case resp_or_error of
        Inl e \<Rightarrow> Raised a e
      | Inr resp \<Rightarrow>
          (let xid = get_xid (drop 0x04 rx_buf) in
           case generate_resp_data xid resp False of
             Inl e \<Rightarrow> Raised a e
           | Inr resp_data \<Rightarrow>
               if vxi11_procedure = DESTROY_LINK then RepliedBroke a resp_data
               else Replied a resp_data))"

definition lxi_request :: "('a \<Rightarrow> str option \<Rightarrow> 'a) \<Rightarrow> 'a \<Rightarrow> bytes \<Rightarrow> 'a step" where
  "lxi_request parser a rx_buf =
     (case parse_lxi_request rx_buf of
        Inl e \<Rightarrow> Raised a e
      | Inr (Tuple3 _ _ _) \<Rightarrow> Raised a ValueError
      | Inr (Tuple4 status vxi11_procedure scpi_command cmd_length) \<Rightarrow>
          if status = NOT_VXI11_ERROR then Broke a
          else if status = UNKNOWN_COMMAND_ERROR then Broke a
          else
            (case LXI_PROCEDURES vxi11_procedure of
               None \<Rightarrow> Raised a KeyError
             | Some _ \<Rightarrow>
                 if vxi11_procedure = CREATE_LINK then
                   lxi_respond a rx_buf vxi11_procedure (Inr generate_lxi_create_link_response)
                 else if vxi11_procedure = DEVICE_WRITE then
                   (let a' = parser a scpi_command in
                    lxi_respond a' rx_buf vxi11_procedure
                      (generate_lxi_device_write_response cmd_length))
                 else if vxi11_procedure = DEVICE_READ then
                   lxi_respond a rx_buf vxi11_procedure (generate_lxi_idn_response AWG_ID_STRING)
                 else if vxi11_procedure = DESTROY_LINK then
                   lxi_respond a rx_buf vxi11_procedure (Inr generate_lxi_destroy_link_response)
                 else Broke a))"

text \<open>
  The loop, over the results of the successive \<open>connection.recv(255)\<close> calls. It leaves
  by \<open>break\<close>, by an exception, or it is still in the loop, at the next \<open>recv\<close>, when
  the receives given are used up.
\<close>

datatype control = Break | Raise error | Receiving

record 'a session = connection +
  awg :: 'a
  control :: control

fun lxi_loop :: "('a \<Rightarrow> str option \<Rightarrow> 'a) \<Rightarrow> 'a session \<Rightarrow> bytes list \<Rightarrow> 'a session" where
  "lxi_loop parser s [] = s\<lparr>control := Receiving\<rparr>"
| "lxi_loop parser s (rx_buf # rest) =
     (if length rx_buf > 0 then
        (case lxi_request parser (awg s) rx_buf of
           Raised a e \<Rightarrow> s\<lparr>awg := a, control := Raise e\<rparr>
         | Broke a \<Rightarrow> s\<lparr>awg := a, control := Break\<rparr>
         | Replied a resp_data \<Rightarrow>
             lxi_loop parser (s\<lparr>sent := sent s @ [resp_data], awg := a\<rparr>) rest
         | RepliedBroke a resp_data \<Rightarrow>
             s\<lparr>sent := sent s @ [resp_data], awg := a, control := Break\<rparr>)
      else lxi_loop parser s rest)"

text \<open>
  \<open>connection.close()\<close> follows the loop: it is executed when the loop was left by
  \<open>break\<close>, not when an exception left the function.
\<close>

definition process_lxi_requests ::
  "('a \<Rightarrow> str option \<Rightarrow> 'a) \<Rightarrow> 'a \<Rightarrow> bytes list \<Rightarrow> 'a session" where
  "process_lxi_requests parser a rxs =
     (let s = lxi_loop parser \<lparr>sent = [], closed = False, awg = a, control = Receiving\<rparr> rxs in
      if control s = Break then s\<lparr>closed := True\<rparr> else s)"

subsection \<open>\<open>main_loop\<close>: the port rotation\<close>




section \<open>Example requests\<close>

text \<open>
  The GETPORT call that the comment in \<open>process_rpcbind_request_udp\<close> gives, with an
  XID filled in, and the same call with procedure 4 in place of 3. On TCP the call
  follows the four bytes of the record mark.
\<close>

definition example_getport :: bytes where
  "example_getport =
     [0x12, 0x34, 0x56, 0x78, 0x00, 0x00, 0x00, 0x00, 0x00, 0x00, 0x00, 0x02, 0x00, 0x01, 0x86, 0xa0,
      0x00, 0x00, 0x00, 0x02, 0x00, 0x00, 0x00, 0x03, 0x00, 0x00, 0x00, 0x00, 0x00, 0x00, 0x00, 0x00,
      0x00, 0x00, 0x00, 0x00, 0x00, 0x00, 0x00, 0x00, 0x00, 0x06, 0x07, 0xaf, 0x00, 0x00, 0x00, 0x01,
      0x00, 0x00, 0x00, 0x06, 0x00, 0x00, 0x00, 0x00]"


definition example_mark :: bytes where
  "example_mark = [0x80, 0x00, 0x00, 0x38]"

text \<open>
  VXI-11 calls as they arrive on the TCP connection: record mark, XID, call, RPC version 2,
  program \<open>prog\<close>, version 1, procedure \<open>proc\<close>, two empty \<open>AUTH_NULL\<close> records, then
  the parameters of the procedure.
\<close>

definition example_call :: "byte \<Rightarrow> bytes \<Rightarrow> byte \<Rightarrow> bytes \<Rightarrow> bytes" where
  "example_call n prog proc params =
     [0x80, 0x00, 0x00, n, 0xAA, 0xBB, 0xCC, 0xDD, 0x00, 0x00, 0x00, 0x00, 0x00, 0x00, 0x00, 0x02]
       @ prog @ [0x00, 0x00, 0x00, 0x01, 0x00, 0x00, 0x00, proc,
      0x00, 0x00, 0x00, 0x00, 0x00, 0x00, 0x00, 0x00, 0x00, 0x00, 0x00, 0x00, 0x00, 0x00, 0x00, 0x00]
       @ params"

definition vxi11_core :: bytes where
  "vxi11_core = [0x00, 0x06, 0x07, 0xaf]"



definition example_device_read :: bytes where
  "example_device_read = example_call 0x40 vxi11_core 12
     [0x00, 0x00, 0x00, 0x00, 0x00, 0x00, 0x04, 0x00, 0x00, 0x00, 0x00, 0x00,
      0x00, 0x00, 0x00, 0x00, 0x00, 0x00, 0x00, 0x00, 0x00, 0x00, 0x00, 0x00]"




definition example_not_vxi11 :: bytes where
  "example_not_vxi11 = example_call 0x2C [0x00, 0x01, 0x86, 0xa0] 10 [0x00, 0x00, 0x00, 0x00]"

text \<open>
  The parser of the examples records the commands it is given; a session starts with
  nothing sent.
\<close>

definition example_parser :: "str option list \<Rightarrow> str option \<Rightarrow> str option list" where
  "example_parser a scpi_command = a @ [scpi_command]"

definition example_session :: "str option list session" where
  "example_session = \<lparr>sent = [], closed = False, awg = [], control = Receiving\<rparr>"

section \<open>Properties\<close>

subsection \<open>Big-endian integers\<close>

lemma length_uint_to_bytes: "uint_to_bytes n = Inr bs \<Longrightarrow> length bs = 4"
  by (auto simp: uint_to_bytes_def split: if_splits)

lemma be32_arith:
  fixes n :: int
  shows "16777216 * (n div 16777216) + 65536 * (n div 65536 mod 256) +
        n div 256 mod 256 * 256 + n mod 256 = n"
proof -
  have a: "n div 65536 = n div 256 div 256" by (simp add: zdiv_zmult2_eq)
  have b: "n div 16777216 = n div 256 div 256 div 256" by (simp add: zdiv_zmult2_eq)
  show ?thesis unfolding a b
    using div_mult_mod_eq [of n 256] div_mult_mod_eq [of "n div 256" 256]
      div_mult_mod_eq [of "n div 256 div 256" 256]
    by linarith
qed

lemma bytes_to_uint_uint_to_bytes: "uint_to_bytes n = Inr bs \<Longrightarrow> bytes_to_uint bs = n"
  by (auto simp: uint_to_bytes_def bytes_to_uint_def uint_word_of_int be32_arith
      split: if_splits)

lemma uint_to_bytes_total:
  "0 \<le> n \<Longrightarrow> n < 2 ^ 32 \<Longrightarrow> \<exists>bs. uint_to_bytes n = Inr bs"
  by (simp add: uint_to_bytes_def)

lemma or_high_bit:
  fixes n :: int
  assumes "0 \<le> n" "n < 2 ^ 31"
  shows "n OR 0x80000000 = 2 ^ 31 + n"
proof -
  have "\<not> bit n 31" using assms by (simp add: bit_iff_odd)
  then have "set_bit 31 n = n + 2 ^ 31" by (simp add: set_bit_eq)
  moreover have "set_bit 31 n = n OR 0x80000000" by (simp add: set_bit_eq_or)
  ultimately show ?thesis by simp
qed

lemma high_bit_set:
  fixes n :: int
  assumes "0 \<le> n" "n < 2 ^ 31"
  shows "bit (2 ^ 31 + n) 31" and "take_bit 31 (2 ^ 31 + n) = n"
proof -
  have "(2 ^ 31 + n) div 2 ^ 31 = 1" using assms by (simp add: div_pos_pos_trivial)
  then show "bit (2 ^ 31 + n) 31" by (simp add: bit_iff_odd)
  show "take_bit 31 (2 ^ 31 + n) = n" using assms by (simp add: take_bit_eq_mod)
qed

subsection \<open>TCP framing\<close>

lemma packet_size_header:
  assumes "0 \<le> n" "n < 2 ^ 31"
  shows "\<exists>h. generate_packet_size_header n = Inr h \<and> length h = 4 \<and>
    bytes_to_uint h = 2 ^ 31 + n"
proof -
  have r: "0 \<le> 2 ^ 31 + n" "2 ^ 31 + n < 2 ^ 32" using assms by simp_all
  obtain h where h: "uint_to_bytes (2 ^ 31 + n) = Inr h"
    using uint_to_bytes_total [OF r] by blast
  have "generate_packet_size_header n = Inr h"
    using h or_high_bit [OF assms] by (simp add: generate_packet_size_header_def)
  then show ?thesis
    using h bytes_to_uint_uint_to_bytes [OF h] length_uint_to_bytes [OF h] by blast
qed

lemma resp_data_tcp:
  assumes "length (generate_rpc_header xid @ resp) < 2 ^ 31"
  shows "\<exists>h. generate_resp_data xid resp False = Inr (h @ generate_rpc_header xid @ resp) \<and>
    generate_packet_size_header (int (length (generate_rpc_header xid @ resp))) = Inr h \<and>
    length h = 4 \<and>
    bytes_to_uint h = 2 ^ 31 + int (length (generate_rpc_header xid @ resp))"
proof -
  let ?n = "int (length (generate_rpc_header xid)) + int (length resp)"
  have "0 \<le> ?n" by simp
  moreover have "?n < 2 ^ 31" using assms by simp
  ultimately obtain h where "generate_packet_size_header ?n = Inr h" "length h = 4"
    "bytes_to_uint h = 2 ^ 31 + ?n"
    using packet_size_header by blast
  then show ?thesis by (simp add: generate_resp_data_def Let_def)
qed

text \<open>
  C8. For every payload of 0 to 8192 bytes, the size header that frames it on TCP is four
  bytes whose big-endian value has bit 31 (the last-fragment flag) set and the length of
  the payload in its low 31 bits; \<open>generate_resp_data\<close>, whose payload is the RPC header
  followed by the response body, sends that header followed by the payload unchanged.
\<close>

theorem tcp_frame_of_payload:
  fixes payload :: bytes
  assumes "length payload \<le> 8192"
  shows "\<exists>size_hdr.
    generate_packet_size_header (int (length payload)) = Inr size_hdr \<and>
    length size_hdr = 4 \<and>
    bit (bytes_to_uint size_hdr) 31 \<and>
    take_bit 31 (bytes_to_uint size_hdr) = int (length payload) \<and>
    (\<forall>xid resp. payload = generate_rpc_header xid @ resp \<longrightarrow>
       generate_resp_data xid resp False = Inr (size_hdr @ payload))"
proof -
  let ?n = "int (length payload)"
  have n: "0 \<le> ?n" "?n < 2 ^ 31" using assms by simp_all
  obtain h where h: "generate_packet_size_header ?n = Inr h" "length h = 4"
    "bytes_to_uint h = 2 ^ 31 + ?n"
    using packet_size_header [OF n] by blast
  have "bit (bytes_to_uint h) 31" "take_bit 31 (bytes_to_uint h) = ?n"
    using high_bit_set [OF n] h(3) by simp_all
  moreover have "generate_resp_data xid resp False = Inr (h @ payload)"
    if "payload = generate_rpc_header xid @ resp" for xid resp
    using that h(1) by (simp add: generate_resp_data_def Let_def)
  ultimately show ?thesis using h(1,2) by blast
qed

theorem tcp_frame_of_payload_witness:
  "length (generate_rpc_header [1, 2, 3, 4] @ [5, 6]) \<le> 8192 \<and>
   (\<exists>size_hdr.
      generate_resp_data [1, 2, 3, 4] [5, 6] False
        = Inr (size_hdr @ generate_rpc_header [1, 2, 3, 4] @ [5, 6]) \<and>
      length size_hdr = 4 \<and> bit (bytes_to_uint size_hdr) 31 \<and>
      take_bit 31 (bytes_to_uint size_hdr) = 26)"
proof -
  have len: "length (generate_rpc_header [1, 2, 3, 4] @ [5, 6]) = 26"
    by (simp add: generate_rpc_header_def)
  then have le: "length (generate_rpc_header [1, 2, 3, 4] @ [5, 6]) \<le> 8192" by simp
  from tcp_frame_of_payload [OF le] len show ?thesis by auto
qed

subsection \<open>Portmapper\<close>

lemma bytes_to_uint_Nil: "bytes_to_uint [] = 0"
  by (simp add: bytes_to_uint_def)

lemma slice_beyond: "length xs \<le> i \<Longrightarrow> py_slice i j xs = []"
  by (simp add: py_slice_def)

lemma field_nonzero: "bytes_to_uint (py_slice i j xs) \<noteq> 0 \<Longrightarrow> i < length xs"
  using slice_beyond [of xs i j] bytes_to_uint_Nil by (cases "i < length xs") auto

lemma get_xid_drop: "get_xid (drop n rx) = py_slice n (n + 4) rx"
  by (simp add: get_xid_def py_slice_def)

lemma get_xid_take: "get_xid rx = take 4 rx"
  by (simp add: get_xid_def py_slice_def)

lemma length_slice: "j \<le> length xs \<Longrightarrow> length (py_slice i j xs) = j - i"
  by (simp add: py_slice_def)

lemma rpcbind_response:
  "\<exists>body. generate_rpcbind_response cell = Inr body \<and> length body = 4 \<and>
     bytes_to_uint body = uint cell"
proof -
  have "uint cell < 2 ^ 32" using uint_lt2p [of cell] by simp
  then obtain body where b: "uint_to_bytes (uint cell) = Inr body"
    using uint_to_bytes_total [of "uint cell"] by auto
  then show ?thesis
    using length_uint_to_bytes [OF b] bytes_to_uint_uint_to_bytes [OF b]
    by (simp add: generate_rpcbind_response_def)
qed

lemma length_rpc_header: "length (generate_rpc_header xid) = length xid + 20"
  by (simp add: generate_rpc_header_def)

lemma resp_data_udp: "generate_resp_data xid resp True = Inr (generate_rpc_header xid @ resp)"
  by (simp add: generate_resp_data_def)


text \<open>
  C1. A request whose procedure field is GETPORT and whose program field is 395183 is
  answered on both transports. On UDP the reply \<open>r\<close> starts with bytes 0 to 3 of the
  request (the XID), and its body, after the 24 bytes of the RPC header, is four bytes
  whose big-endian value is the value of the port cell. On TCP, where the request follows
  a four-byte record mark, the bytes sent are a four-byte prefix followed by the same
  reply \<open>r\<close>; the prefix has bit 31 set and the length of \<open>r\<close> (header plus body) in its
  low 31 bits. The TCP connection is then closed.
\<close>

theorem getport_reply:
  assumes "get_procedure msg = GET_PORT" and "get_program_id msg = VXI11_CORE_ID"
    and "length pre = 4"
  shows "\<exists>r t. process_rpcbind_request_udp vxi11_port msg = (Inr OK, [r]) \<and>
    process_rpcbind_request_tcp vxi11_port (pre @ msg) = (Inr OK, \<lparr>sent = [t], closed = True\<rparr>) \<and>
    length (take 4 msg) = 4 \<and> take 4 r = take 4 msg \<and>
    length (drop 24 r) = 4 \<and> bytes_to_uint (drop 24 r) = uint vxi11_port \<and>
    drop 4 t = r \<and> length (take 4 t) = 4 \<and> bit (bytes_to_uint (take 4 t)) 31 \<and>
    take_bit 31 (bytes_to_uint (take 4 t)) = int (length r)"
proof -
  have "bytes_to_uint (py_slice 0x28 0x2C msg) \<noteq> 0"
    using assms(2) by (simp add: get_program_id_def VXI11_CORE_ID_def)
  then have len: "0x28 < length msg" by (rule field_nonzero)
  then have x: "length (take 4 msg) = 4" by simp
  have ne: "msg \<noteq> []" using len by auto
  obtain body where body: "generate_rpcbind_response vxi11_port = Inr body" "length body = 4"
    "bytes_to_uint body = uint vxi11_port"
    using rpcbind_response by blast
  let ?r = "generate_rpc_header (take 4 msg) @ body"
  have lr: "length ?r = 28" using x body(2) by (simp add: length_rpc_header)
  then have "length ?r < 2 ^ 31" by simp
  then obtain h where h: "generate_resp_data (take 4 msg) body False = Inr (h @ ?r)"
    "length h = 4" "bytes_to_uint h = 2 ^ 31 + int (length ?r)"
    using resp_data_tcp [of "take 4 msg" body] by blast
  have udp: "process_rpcbind_request_udp vxi11_port msg = (Inr OK, [?r])"
    using assms(1,2) ne body(1)
    by (simp add: process_rpcbind_request_udp_def Let_def get_xid_take resp_data_udp)
  have tcp: "process_rpcbind_request_tcp vxi11_port (pre @ msg)
      = (Inr OK, \<lparr>sent = [h @ ?r], closed = True\<rparr>)"
    using assms ne body(1) h(1)
    by (simp add: process_rpcbind_request_tcp_def Let_def get_xid_take)
  have dr: "drop 24 ?r = body" using x by (simp add: generate_rpc_header_def)
  have th: "take 4 (h @ ?r) = h" using h(2) by simp
  have 1: "take 4 ?r = take 4 msg" using x by (simp add: generate_rpc_header_def)
  have 2: "length (drop 24 ?r) = 4" using dr body(2) by simp
  have 3: "bytes_to_uint (drop 24 ?r) = uint vxi11_port" using dr body(3) by simp
  have 4: "drop 4 (h @ ?r) = ?r" using h(2) by simp
  have 5: "length (take 4 (h @ ?r)) = 4" using th h(2) by simp
  have 6: "bit (bytes_to_uint (take 4 (h @ ?r))) 31"
    using high_bit_set(1) [of "int (length ?r)"] h(3) lr th by simp
  have 7: "take_bit 31 (bytes_to_uint (take 4 (h @ ?r))) = int (length ?r)"
    using high_bit_set(2) [of "int (length ?r)"] h(3) lr th by simp
  show ?thesis using udp tcp x 1 2 3 4 5 6 7 by blast
qed

theorem getport_reply_witness:
  "get_procedure example_getport = GET_PORT \<and> get_program_id example_getport = VXI11_CORE_ID \<and>
   length example_mark = 4 \<and>
   (\<exists>r t. process_rpcbind_request_udp 9010 example_getport = (Inr OK, [r]) \<and>
      process_rpcbind_request_tcp 9010 (example_mark @ example_getport)
        = (Inr OK, \<lparr>sent = [t], closed = True\<rparr>) \<and>
      take 4 r = [0x12, 0x34, 0x56, 0x78] \<and> bytes_to_uint (drop 24 r) = 9010 \<and>
      drop 4 t = r \<and> bit (bytes_to_uint (take 4 t)) 31 \<and>
      take_bit 31 (bytes_to_uint (take 4 t)) = int (length r))"
proof -
  have a: "get_procedure example_getport = GET_PORT"
    by (simp add: get_procedure_def example_getport_def py_slice_def bytes_to_uint_def GET_PORT_def)
  have b: "get_program_id example_getport = VXI11_CORE_ID"
    by (simp add: get_program_id_def example_getport_def py_slice_def bytes_to_uint_def
        VXI11_CORE_ID_def)
  have c: "length example_mark = 4" by (simp add: example_mark_def)
  have d: "take 4 example_getport = [0x12, 0x34, 0x56, 0x78]"
    by (simp add: example_getport_def)
  from getport_reply [OF a b c, of 9010] d a b c show ?thesis by auto
qed

lemma rpcbind_rejection_udp:
  assumes "get_procedure rx \<noteq> GET_PORT \<or> get_program_id rx \<noteq> VXI11_CORE_ID"
  shows "snd (process_rpcbind_request_udp vxi11_port rx) = []"
  using assms by (auto simp: process_rpcbind_request_udp_def Let_def)

lemma rpcbind_rejection_tcp_no_reply:
  assumes "get_procedure (drop 4 rx) \<noteq> GET_PORT \<or> get_program_id (drop 4 rx) \<noteq> VXI11_CORE_ID"
  shows "sent (snd (process_rpcbind_request_tcp vxi11_port rx)) = []"
  using assms by (auto simp: process_rpcbind_request_tcp_def Let_def)

lemma rpcbind_short_receive_closed:
  "length rx \<le> 4 \<Longrightarrow>
     process_rpcbind_request_tcp vxi11_port rx = (Inr OK, \<lparr>sent = [], closed = True\<rparr>)"
  by (simp add: process_rpcbind_request_tcp_def)



subsection \<open>VXI-11 replies\<close>














subsection \<open>Port rotation\<close>








subsection \<open>The VXI-11 procedures\<close>

lemma status_simps:
  "OK \<noteq> NOT_VXI11_ERROR" "OK \<noteq> UNKNOWN_COMMAND_ERROR"
  "UNKNOWN_COMMAND_ERROR \<noteq> NOT_VXI11_ERROR"
  by (simp_all add: OK_def NOT_VXI11_ERROR_def UNKNOWN_COMMAND_ERROR_def)

lemma procedure_simps:
  "LXI_PROCEDURES CREATE_LINK \<noteq> None" "LXI_PROCEDURES DEVICE_WRITE \<noteq> None"
  "LXI_PROCEDURES DEVICE_READ \<noteq> None" "LXI_PROCEDURES DESTROY_LINK \<noteq> None"
  "CREATE_LINK \<noteq> DESTROY_LINK" "DEVICE_WRITE \<noteq> DESTROY_LINK" "DEVICE_READ \<noteq> DESTROY_LINK"
  "DEVICE_WRITE \<noteq> CREATE_LINK" "DEVICE_READ \<noteq> CREATE_LINK" "DEVICE_READ \<noteq> DEVICE_WRITE"
  "DESTROY_LINK \<noteq> CREATE_LINK" "DESTROY_LINK \<noteq> DEVICE_WRITE" "DESTROY_LINK \<noteq> DEVICE_READ"
  by (simp_all add: LXI_PROCEDURES_def CREATE_LINK_def DEVICE_WRITE_def DEVICE_READ_def
      DESTROY_LINK_def)

lemma parse_not_vxi11:
  "bytes_to_uint (py_slice 0x10 0x14 rx_buf) \<noteq> VXI11_CORE_ID \<Longrightarrow>
     parse_lxi_request rx_buf = Inr (Tuple3 NOT_VXI11_ERROR None None)"
  by (simp add: parse_lxi_request_def)

lemma parse_device_read:
  "bytes_to_uint (py_slice 0x10 0x14 rx_buf) = VXI11_CORE_ID \<Longrightarrow>
   bytes_to_uint (py_slice 0x18 0x1c rx_buf) = DEVICE_READ \<Longrightarrow>
     parse_lxi_request rx_buf = Inr (Tuple4 OK DEVICE_READ None 0)"
  by (simp add: parse_lxi_request_def procedure_simps)

lemma parse_destroy_link:
  "bytes_to_uint (py_slice 0x10 0x14 rx_buf) = VXI11_CORE_ID \<Longrightarrow>
   bytes_to_uint (py_slice 0x18 0x1c rx_buf) = DESTROY_LINK \<Longrightarrow>
     parse_lxi_request rx_buf = Inr (Tuple4 OK DESTROY_LINK None 0)"
  by (simp add: parse_lxi_request_def procedure_simps)

lemma parse_unknown:
  "bytes_to_uint (py_slice 0x10 0x14 rx_buf) = VXI11_CORE_ID \<Longrightarrow>
   bytes_to_uint (py_slice 0x18 0x1c rx_buf) \<notin> {CREATE_LINK, DEVICE_WRITE, DEVICE_READ, DESTROY_LINK} \<Longrightarrow>
     parse_lxi_request rx_buf
       = Inr (Tuple4 UNKNOWN_COMMAND_ERROR (bytes_to_uint (py_slice 0x18 0x1c rx_buf)) None 0)"
  by (simp add: parse_lxi_request_def)

lemma parse_create_link:
  "bytes_to_uint (py_slice 0x10 0x14 rx_buf) = VXI11_CORE_ID \<Longrightarrow>
   bytes_to_uint (py_slice 0x18 0x1c rx_buf) = CREATE_LINK \<Longrightarrow>
     parse_lxi_request rx_buf =
       (case utf8_decode (py_slice 0x3C (0x3C + nat (bytes_to_uint (py_slice 0x38 0x3C rx_buf))) rx_buf) of
          Inl e \<Rightarrow> Inl e
        | Inr s \<Rightarrow> Inr (Tuple4 OK CREATE_LINK (Some (strip s))
            (bytes_to_uint (py_slice 0x38 0x3C rx_buf))))"
  by (simp add: parse_lxi_request_def Let_def)

lemma parse_device_write:
  "bytes_to_uint (py_slice 0x10 0x14 rx_buf) = VXI11_CORE_ID \<Longrightarrow>
   bytes_to_uint (py_slice 0x18 0x1c rx_buf) = DEVICE_WRITE \<Longrightarrow>
     parse_lxi_request rx_buf =
       (case utf8_decode (py_slice 0x40 (0x40 + nat (bytes_to_uint (py_slice 0x3C 0x40 rx_buf))) rx_buf) of
          Inl e \<Rightarrow> Inl e
        | Inr s \<Rightarrow> Inr (Tuple4 OK DEVICE_WRITE (Some (strip s))
            (bytes_to_uint (py_slice 0x3C 0x40 rx_buf))))"
  by (simp add: parse_lxi_request_def Let_def procedure_simps)

lemma vxi11_xid_length:
  "bytes_to_uint (py_slice 0x10 0x14 rx_buf) = VXI11_CORE_ID \<Longrightarrow> length (py_slice 4 8 rx_buf) = 4"
proof -
  assume "bytes_to_uint (py_slice 0x10 0x14 rx_buf) = VXI11_CORE_ID"
  then have "bytes_to_uint (py_slice 0x10 0x14 rx_buf) \<noteq> 0" by (simp add: VXI11_CORE_ID_def)
  then have "0x10 < length rx_buf" by (rule field_nonzero)
  then show ?thesis by (simp add: py_slice_def)
qed

lemma lxi_respond_tcp:
  assumes "length (py_slice 4 8 rx_buf) = 4" and "length resp < 2 ^ 30"
  shows "\<exists>h. length h = 4 \<and>
    bytes_to_uint h = 2 ^ 31 + int (length (generate_rpc_header (py_slice 4 8 rx_buf) @ resp)) \<and>
    lxi_respond a rx_buf pr (Inr resp) =
      (if pr = DESTROY_LINK then RepliedBroke a (h @ generate_rpc_header (py_slice 4 8 rx_buf) @ resp)
       else Replied a (h @ generate_rpc_header (py_slice 4 8 rx_buf) @ resp))"
proof -
  have "length (generate_rpc_header (py_slice 4 8 rx_buf) @ resp) < 2 ^ 31"
    using assms by (simp add: length_rpc_header)
  from resp_data_tcp [OF this] obtain h where
    h: "generate_resp_data (py_slice 4 8 rx_buf) resp False
          = Inr (h @ generate_rpc_header (py_slice 4 8 rx_buf) @ resp)"
      "length h = 4"
      "bytes_to_uint h = 2 ^ 31 + int (length (generate_rpc_header (py_slice 4 8 rx_buf) @ resp))"
    by blast
  have "lxi_respond a rx_buf pr (Inr resp) =
      (if pr = DESTROY_LINK then RepliedBroke a (h @ generate_rpc_header (py_slice 4 8 rx_buf) @ resp)
       else Replied a (h @ generate_rpc_header (py_slice 4 8 rx_buf) @ resp))"
    using h(1) by (simp add: lxi_respond_def Let_def get_xid_drop)
  with h(2,3) show ?thesis by blast
qed

lemma idn_response:
  "generate_lxi_idn_response AWG_ID_STRING
     = Inr ([0, 0, 0, 0] @ [0, 0, 0, 4] @ [0, 0, 0, 22] @ AWG_ID_STRING @ [0x0A, 0, 0])"
  by (simp add: generate_lxi_idn_response_def AWG_ID_STRING_def uint_to_bytes_def)

text \<open>
  C4 (what the code does). The claim is that a record whose program id is not 395183, or
  whose procedure is none of 10, 11, 12, 23, makes the loop break without a reply, and
  that the connection is then closed. For an unknown procedure that is what happens
  (\<open>unknown_procedure_breaks\<close> below). For a program id that is not 395183,
  \<open>parse_lxi_request\<close> returns a tuple of three values, and the assignment in
  \<open>process_lxi_requests\<close> that unpacks four values raises \<open>ValueError\<close>: the
  \<open>break\<close> of the \<open>NOT_VXI11_ERROR\<close> branch is never reached, the function is left by
  the exception, and \<open>connection.close()\<close> is not executed.
\<close>

theorem not_vxi11_raises:
  assumes "0 < length rx_buf"
    and "bytes_to_uint (py_slice 0x10 0x14 rx_buf) \<noteq> VXI11_CORE_ID"
  shows "lxi_request parser a rx_buf = Raised a ValueError \<and>
    lxi_loop parser s (rx_buf # rest) = s\<lparr>control := Raise ValueError\<rparr> \<and>
    process_lxi_requests parser a (rx_buf # rest)
      = \<lparr>sent = [], closed = False, awg = a, control = Raise ValueError\<rparr>"
proof -
  have r: "lxi_request parser a rx_buf = Raised a ValueError" for a
    using parse_not_vxi11 [OF assms(2)] by (simp add: lxi_request_def)
  then have l: "lxi_loop parser s (rx_buf # rest) = s\<lparr>control := Raise ValueError\<rparr>" for s
    using assms(1) by simp
  show ?thesis using r l by (simp add: process_lxi_requests_def)
qed

theorem not_vxi11_raises_witness:
  "0 < length example_not_vxi11 \<and>
   bytes_to_uint (py_slice 0x10 0x14 example_not_vxi11) \<noteq> VXI11_CORE_ID \<and>
   process_lxi_requests example_parser [] [example_not_vxi11]
     = \<lparr>sent = [], closed = False, awg = [], control = Raise ValueError\<rparr>"
proof -
  have a: "0 < length example_not_vxi11" by code_simp
  have b: "bytes_to_uint (py_slice 0x10 0x14 example_not_vxi11) \<noteq> VXI11_CORE_ID" by code_simp
  from not_vxi11_raises [OF a b, of example_parser "[]" _ "[]"] a b show ?thesis by simp
qed

lemma unknown_procedure_breaks:
  assumes "0 < length rx_buf"
    and "bytes_to_uint (py_slice 0x10 0x14 rx_buf) = VXI11_CORE_ID"
    and "bytes_to_uint (py_slice 0x18 0x1c rx_buf) \<notin> {CREATE_LINK, DEVICE_WRITE, DEVICE_READ, DESTROY_LINK}"
  shows "lxi_request parser a rx_buf = Broke a"
    and "process_lxi_requests parser a (rx_buf # rest)
      = \<lparr>sent = [], closed = True, awg = a, control = Break\<rparr>"
proof -
  show r: "lxi_request parser a rx_buf = Broke a"
    using parse_unknown [OF assms(2,3)] by (simp add: lxi_request_def status_simps)
  show "process_lxi_requests parser a (rx_buf # rest)
      = \<lparr>sent = [], closed = True, awg = a, control = Break\<rparr>"
    using r assms(1) by (simp add: process_lxi_requests_def)
qed

lemma bytes_to_uint_snoc: "bytes_to_uint (bs @ [b]) = bytes_to_uint bs * 256 + uint b"
  by (simp add: bytes_to_uint_def)

lemma bytes_to_uint_bound: "0 \<le> bytes_to_uint bs \<and> bytes_to_uint bs < 256 ^ length bs"
proof (induction bs rule: rev_induct)
  case Nil
  show ?case by (simp add: bytes_to_uint_def)
next
  case (snoc b bs)
  have b: "0 \<le> uint b" "uint b < 256" using uint_lt2p [of b] by simp_all
  from snoc have "bytes_to_uint bs + 1 \<le> 256 ^ length bs" by simp
  then have "(bytes_to_uint bs + 1) * 256 \<le> 256 ^ length bs * 256" by simp
  then show ?case using snoc b by (simp add: bytes_to_uint_snoc algebra_simps)
qed

lemma field_bound: "i \<le> j \<Longrightarrow> j - i \<le> 4 \<Longrightarrow>
  0 \<le> bytes_to_uint (py_slice i j rx) \<and> bytes_to_uint (py_slice i j rx) < 2 ^ 32"
proof -
  assume "i \<le> j" "j - i \<le> 4"
  then have "length (py_slice i j rx) \<le> 4" by (simp add: py_slice_def)
  then have "(256::int) ^ length (py_slice i j rx) \<le> 256 ^ 4"
    by (intro power_increasing) simp_all
  then show ?thesis using bytes_to_uint_bound [of "py_slice i j rx"] by simp
qed

lemma device_write_response:
  assumes "0 \<le> n" "n < 2 ^ 32"
  shows "\<exists>sz. generate_lxi_device_write_response n = Inr ([0, 0, 0, 0] @ sz) \<and> length sz = 4 \<and>
    bytes_to_uint sz = n"
proof -
  obtain sz where sz: "uint_to_bytes n = Inr sz" using uint_to_bytes_total [OF assms] by blast
  then show ?thesis
    using length_uint_to_bytes [OF sz] bytes_to_uint_uint_to_bytes [OF sz]
    by (simp add: generate_lxi_device_write_response_def)
qed

lemma vxi11_nonempty:
  "bytes_to_uint (py_slice 0x10 0x14 rx_buf) = VXI11_CORE_ID \<Longrightarrow> 0 < length rx_buf"
  using vxi11_xid_length [of rx_buf] by (auto simp: py_slice_def)

lemma lxi_loop_Replied:
  assumes "0 < length rx_buf" and "lxi_request parser (awg s) rx_buf = Replied a reply"
  shows "lxi_loop parser s (rx_buf # rest)
    = lxi_loop parser (s\<lparr>sent := sent s @ [reply], awg := a\<rparr>) rest"
  using assms by simp

text \<open>
  C5 (amended). A DEVICE_READ request received in a session is answered, and the loop
  goes on to the next receive with the reply appended to what was sent. The reply is,
  after the TCP prefix and the RPC header, the body: error code 0, reason 4, the length field 22 (the length of the
  identity bytes plus one), the identity bytes \<open>IDN-SGLT-PRI SDG0000X\<close>, and the bytes
  \<open>0A 00 00\<close>. The identity bytes do not begin with \<open>SDG\<close>: it is the model name
  \<open>SDG0000X\<close>, from offset 13 after the prefix \<open>IDN-SGLT-PRI \<close>, that begins with
  \<open>SDG\<close>.
\<close>

theorem device_read_reply:
  assumes "bytes_to_uint (py_slice 0x10 0x14 rx_buf) = VXI11_CORE_ID"
    and "bytes_to_uint (py_slice 0x18 0x1c rx_buf) = DEVICE_READ"
  shows "\<exists>h reply. length h = 4 \<and> length (py_slice 4 8 rx_buf) = 4 \<and>
    reply = h @ generate_rpc_header (py_slice 4 8 rx_buf)
        @ [0, 0, 0, 0] @ [0, 0, 0, 4] @ [0, 0, 0, 22] @ AWG_ID_STRING @ [0x0A, 0, 0] \<and>
    lxi_request parser (awg s) rx_buf = Replied (awg s) reply \<and>
    lxi_loop parser s (rx_buf # rest) = lxi_loop parser (s\<lparr>sent := sent s @ [reply]\<rparr>) rest \<and>
    AWG_ID_STRING = map (of_nat \<circ> of_char) ''IDN-SGLT-PRI SDG0000X'' \<and>
    int (length AWG_ID_STRING) + 1 = 22 \<and>
    drop 13 AWG_ID_STRING = map (of_nat \<circ> of_char) ''SDG0000X'' \<and>
    take 3 (drop 13 AWG_ID_STRING) = map (of_nat \<circ> of_char) ''SDG''"
proof -
  let ?body = "[0, 0, 0, 0] @ [0, 0, 0, 4] @ [0, 0, 0, 22] @ AWG_ID_STRING @ [0x0A, 0, 0] :: bytes"
  have x: "length (py_slice 4 8 rx_buf) = 4" using assms(1) by (rule vxi11_xid_length)
  have "length ?body < 2 ^ 30" by (simp add: AWG_ID_STRING_def)
  from lxi_respond_tcp [OF x this, of "awg s" DEVICE_READ] obtain h where h: "length h = 4"
    "lxi_respond (awg s) rx_buf DEVICE_READ (Inr ?body)
       = Replied (awg s) (h @ generate_rpc_header (py_slice 4 8 rx_buf) @ ?body)"
    by (auto simp: procedure_simps)
  let ?reply = "h @ generate_rpc_header (py_slice 4 8 rx_buf) @ ?body"
  have r: "lxi_request parser (awg s) rx_buf = Replied (awg s) ?reply"
    using parse_device_read [OF assms] h(2)
    by (simp add: lxi_request_def status_simps procedure_simps idn_response
        split: option.splits)
  have l: "lxi_loop parser s (rx_buf # rest)
      = lxi_loop parser (s\<lparr>sent := sent s @ [?reply]\<rparr>) rest"
    using lxi_loop_Replied [OF vxi11_nonempty [OF assms(1)] r] by simp
  have "AWG_ID_STRING = map (of_nat \<circ> of_char) ''IDN-SGLT-PRI SDG0000X''"
    by (simp add: AWG_ID_STRING_def)
  moreover have "int (length AWG_ID_STRING) + 1 = 22" by (simp add: AWG_ID_STRING_def)
  moreover have "drop 13 AWG_ID_STRING = map (of_nat \<circ> of_char) ''SDG0000X''"
    by (simp add: AWG_ID_STRING_def)
  moreover have "take 3 (drop 13 AWG_ID_STRING) = map (of_nat \<circ> of_char) ''SDG''"
    by (simp add: AWG_ID_STRING_def)
  ultimately show ?thesis using h(1) x r l by blast
qed

theorem device_read_reply_witness:
  "bytes_to_uint (py_slice 0x10 0x14 example_device_read) = VXI11_CORE_ID \<and>
   bytes_to_uint (py_slice 0x18 0x1c example_device_read) = DEVICE_READ \<and>
   (\<exists>h reply. length h = 4 \<and>
      reply = h @ generate_rpc_header [0xAA, 0xBB, 0xCC, 0xDD]
          @ [0, 0, 0, 0] @ [0, 0, 0, 4] @ [0, 0, 0, 22] @ AWG_ID_STRING @ [0x0A, 0, 0] \<and>
      lxi_request example_parser (awg example_session) example_device_read
        = Replied (awg example_session) reply \<and>
      lxi_loop example_parser example_session [example_device_read]
        = example_session\<lparr>sent := [reply]\<rparr>)"
proof -
  have a: "bytes_to_uint (py_slice 0x10 0x14 example_device_read) = VXI11_CORE_ID" by code_simp
  have b: "bytes_to_uint (py_slice 0x18 0x1c example_device_read) = DEVICE_READ" by code_simp
  have x: "py_slice 4 8 example_device_read = [0xAA, 0xBB, 0xCC, 0xDD]" by code_simp
  have s: "sent example_session = []" "control example_session = Receiving"
    by (simp_all add: example_session_def)
  from device_read_reply [OF a b, of example_parser example_session "[]"] a b show ?thesis
    unfolding x using s by auto
qed

text \<open>
  The counterexample to C5 as stated: the first three identity bytes are \<open>IDN\<close>.
\<close>

theorem identity_prefix_counterexample:
  "take 3 AWG_ID_STRING = map (of_nat \<circ> of_char) ''IDN'' \<and>
   take 3 AWG_ID_STRING \<noteq> map (of_nat \<circ> of_char) ''SDG''"
  by (simp add: AWG_ID_STRING_def)









subsection \<open>The request loop\<close>









lemma utf8_decode_error: "utf8_decode bs = Inl e \<Longrightarrow> e = UnicodeDecodeError"
proof (induction bs arbitrary: e rule: length_induct)
  case (1 bs)
  show ?case
  proof (cases bs)
    case Nil
    with 1 show ?thesis by simp
  next
    case (Cons b0 r0)
    have ih: "utf8_decode r = Inl e' \<Longrightarrow> length r < length bs \<Longrightarrow> e' = UnicodeDecodeError" for r e'
      using 1(1) by blast
    have l: "length r0 < length bs" using Cons by simp
    consider (a) "b0 < 0x80" | (b) "\<not> b0 < 0x80" "0xC2 \<le> b0 \<and> b0 \<le> 0xDF"
      | (c) "\<not> b0 < 0x80" "\<not> (0xC2 \<le> b0 \<and> b0 \<le> 0xDF)" "0xE0 \<le> b0 \<and> b0 \<le> 0xEF"
      | (d) "\<not> b0 < 0x80" "\<not> (0xC2 \<le> b0 \<and> b0 \<le> 0xDF)" "\<not> (0xE0 \<le> b0 \<and> b0 \<le> 0xEF)"
          "0xF0 \<le> b0 \<and> b0 \<le> 0xF4"
      | (e) "\<not> b0 < 0x80" "\<not> (0xC2 \<le> b0 \<and> b0 \<le> 0xDF)" "\<not> (0xE0 \<le> b0 \<and> b0 \<le> 0xEF)"
          "\<not> (0xF0 \<le> b0 \<and> b0 \<le> 0xF4)"
      by blast
    then show ?thesis
    proof cases
      case a
      with 1(2) Cons ih [of r0] l show ?thesis by (simp split: sum.splits)
    next
      case b
      show ?thesis
      proof (cases r0)
        case Nil
        with 1(2) Cons b show ?thesis by simp
      next
        case (Cons b1 r1)
        with 1(2) \<open>bs = b0 # r0\<close> b ih [of r1] show ?thesis
          by (simp split: sum.splits if_splits)
      qed
    next
      case c
      show ?thesis
      proof (cases r0)
        case Nil
        with 1(2) Cons c show ?thesis by simp
      next
        case r0: (Cons b1 r1)
        show ?thesis
        proof (cases r1)
          case Nil
          with 1(2) \<open>bs = b0 # r0\<close> r0 c show ?thesis by simp
        next
          case (Cons b2 r2)
          with 1(2) \<open>bs = b0 # r0\<close> r0 c ih [of r2] show ?thesis
            by (simp split: sum.splits if_splits)
        qed
      qed
    next
      case d
      show ?thesis
      proof (cases r0)
        case Nil
        with 1(2) Cons d show ?thesis by simp
      next
        case r0: (Cons b1 r1)
        show ?thesis
        proof (cases r1)
          case Nil
          with 1(2) \<open>bs = b0 # r0\<close> r0 d show ?thesis by simp
        next
          case r1: (Cons b2 r2)
          show ?thesis
          proof (cases r2)
            case Nil
            with 1(2) \<open>bs = b0 # r0\<close> r0 r1 d show ?thesis by simp
          next
            case (Cons b3 r3)
            with 1(2) \<open>bs = b0 # r0\<close> r0 r1 d ih [of r3] show ?thesis
              by (simp split: sum.splits if_splits)
          qed
        qed
      qed
    next
      case e
      with 1(2) Cons show ?thesis by simp
    qed
  qed
qed


lemma lxi_request_Raised:
  assumes "lxi_request parser a rx = Raised a' e"
  shows "a' = a \<and>
    (bytes_to_uint (py_slice 0x10 0x14 rx) \<noteq> VXI11_CORE_ID \<and> e = ValueError \<or>
     bytes_to_uint (py_slice 0x10 0x14 rx) = VXI11_CORE_ID \<and>
     bytes_to_uint (py_slice 0x18 0x1c rx) \<in> {CREATE_LINK, DEVICE_WRITE} \<and>
     e = UnicodeDecodeError)"
proof (cases "bytes_to_uint (py_slice 0x10 0x14 rx) = VXI11_CORE_ID")
  case False
  with assms parse_not_vxi11 [OF False] show ?thesis by (simp add: lxi_request_def)
next
  case True
  note x = vxi11_xid_length [OF True]
  let ?pr = "bytes_to_uint (py_slice 0x18 0x1c rx)"
  consider (cl) "?pr = CREATE_LINK" | (dw) "?pr = DEVICE_WRITE" | (dr) "?pr = DEVICE_READ"
    | (dl) "?pr = DESTROY_LINK"
    | (un) "?pr \<notin> {CREATE_LINK, DEVICE_WRITE, DEVICE_READ, DESTROY_LINK}"
    by blast
  then show ?thesis
  proof cases
    case cl
    let ?body = "generate_lxi_create_link_response"
    have "length ?body < 2 ^ 30" by (simp add: generate_lxi_create_link_response_def)
    from lxi_respond_tcp [OF x this, of a CREATE_LINK]
    have r: "\<exists>d. lxi_respond a rx CREATE_LINK (Inr ?body) = Replied a d"
      by (auto simp: procedure_simps)
    show ?thesis
    proof (cases "utf8_decode (py_slice 0x3C (0x3C + nat (bytes_to_uint (py_slice 0x38 0x3C rx))) rx)")
      case (Inl e')
      with assms parse_create_link [OF True cl] utf8_decode_error [OF Inl] True cl
      show ?thesis by (simp add: lxi_request_def)
    next
      case (Inr dev)
      with assms parse_create_link [OF True cl] r show ?thesis
        by (auto simp: lxi_request_def status_simps procedure_simps split: option.splits)
    qed
  next
    case dw
    let ?L = "bytes_to_uint (py_slice 0x3C 0x40 rx)"
    have "0 \<le> ?L \<and> ?L < 2 ^ 32" using field_bound [of "0x3C" "0x40" rx] by simp
    then obtain sz where sz: "generate_lxi_device_write_response ?L = Inr ([0, 0, 0, 0] @ sz)"
      "length sz = 4"
      using device_write_response [of ?L] by blast
    have "length ([0, 0, 0, 0] @ sz) < 2 ^ 30" using sz(2) by simp
    then have r: "\<exists>d. lxi_respond b rx DEVICE_WRITE (Inr ([0, 0, 0, 0] @ sz)) = Replied b d" for b
      using lxi_respond_tcp [OF x, of "[0, 0, 0, 0] @ sz" b DEVICE_WRITE]
      by (auto simp: procedure_simps)
    show ?thesis
    proof (cases "utf8_decode (py_slice 0x40 (0x40 + nat ?L) rx)")
      case (Inl e')
      with assms parse_device_write [OF True dw] utf8_decode_error [OF Inl] True dw
      show ?thesis by (simp add: lxi_request_def)
    next
      case (Inr cmd)
      from r [of "parser a (Some (strip cmd))"] obtain d where
        "lxi_respond (parser a (Some (strip cmd))) rx DEVICE_WRITE (Inr ([0, 0, 0, 0] @ sz))
          = Replied (parser a (Some (strip cmd))) d" by blast
      with Inr assms parse_device_write [OF True dw] sz(1) show ?thesis
        by (simp add: lxi_request_def status_simps procedure_simps Let_def split: option.splits)
    qed
  next
    case dr
    let ?body = "[0, 0, 0, 0] @ [0, 0, 0, 4] @ [0, 0, 0, 22] @ AWG_ID_STRING @ [0x0A, 0, 0] :: bytes"
    have "length ?body < 2 ^ 30" by (simp add: AWG_ID_STRING_def)
    from lxi_respond_tcp [OF x this, of a DEVICE_READ]
    have "\<exists>d. lxi_respond a rx DEVICE_READ (Inr ?body) = Replied a d"
      by (auto simp: procedure_simps)
    with assms parse_device_read [OF True dr] show ?thesis
      by (auto simp: lxi_request_def status_simps procedure_simps idn_response
          split: option.splits)
  next
    case dl
    have "length generate_lxi_destroy_link_response < 2 ^ 30"
      by (simp add: generate_lxi_destroy_link_response_def)
    from lxi_respond_tcp [OF x this, of a DESTROY_LINK]
    have "\<exists>d. lxi_respond a rx DESTROY_LINK (Inr generate_lxi_destroy_link_response)
      = RepliedBroke a d"
      by auto
    with assms parse_destroy_link [OF True dl] show ?thesis
      by (auto simp: lxi_request_def status_simps procedure_simps split: option.splits)
  next
    case un
    with assms parse_unknown [OF True un] show ?thesis
      by (simp add: lxi_request_def status_simps)
  qed
qed

lemma lxi_loop_Raise:
  assumes "control (lxi_loop parser s rxs) = Raise e"
  shows "\<exists>rx \<in> set rxs. 0 < length rx \<and>
    (bytes_to_uint (py_slice 0x10 0x14 rx) \<noteq> VXI11_CORE_ID \<and> e = ValueError \<or>
     bytes_to_uint (py_slice 0x10 0x14 rx) = VXI11_CORE_ID \<and>
     bytes_to_uint (py_slice 0x18 0x1c rx) \<in> {CREATE_LINK, DEVICE_WRITE} \<and>
     e = UnicodeDecodeError)"
  using assms
proof (induction rxs arbitrary: s)
  case Nil
  then show ?case by simp
next
  case (Cons rx rest)
  show ?case
  proof (cases "length rx > 0")
    case False
    with Cons.prems have "control (lxi_loop parser s rest) = Raise e" by simp
    from Cons.IH [OF this] show ?thesis by auto
  next
    case True
    show ?thesis
    proof (cases "lxi_request parser (awg s) rx")
      case (Raised a e')
      with True Cons.prems have "e' = e" by simp
      with lxi_request_Raised [OF Raised] True show ?thesis by auto
    next
      case (Broke a)
      with True Cons.prems show ?thesis by simp
    next
      case (Replied a r)
      with True Cons.prems
      have "control (lxi_loop parser (s\<lparr>sent := sent s @ [r], awg := a\<rparr>) rest) = Raise e"
        by simp
      from Cons.IH [OF this] show ?thesis by auto
    next
      case (RepliedBroke a r)
      with True Cons.prems show ?thesis by simp
    qed
  qed
qed



end
